theory Spec2Isabelle
  imports Main "HOL-Library.Sublist" "HOL-Library.AList"
begin

section \<open>Texts\<close>

text \<open>
  The migration scripts (\<^verbatim>\<open>scripts/convert.py\<close>, \<^verbatim>\<open>scripts/appium-conversion.py\<close>)
  treat every file as one Python \<^verbatim>\<open>str\<close>. A text is modelled as a \<open>string\<close>, one
  \<open>char\<close> per code point; the model covers the texts whose code points lie below 256.
  The operations of \<^verbatim>\<open>str\<close> the scripts call are defined first, each with the behaviour
  of the Python method of the same name.
\<close>

abbreviation (input) bs :: char where
  "bs \<equiv> CHR 0x5C"

abbreviation (input) nl :: char where
  "nl \<equiv> CHR 0x0A"

text \<open>\<^verbatim>\<open>str.isspace\<close> on one code point below 256: the characters \<^verbatim>\<open>rstrip()\<close> removes
  and the regular expression \<^verbatim>\<open>\s\<close> matches.\<close>

definition is_space :: "char \<Rightarrow> bool" where
  "is_space c = (of_char c \<in> set [9, 10, 11, 12, 13, 28, 29, 30, 31, 32, 133, 160 :: nat])"



text \<open>\<^verbatim>\<open>sub in s\<close>: \<open>sub\<close> occurs in \<open>s\<close> as a contiguous run.\<close>

fun is_sub :: "string \<Rightarrow> string \<Rightarrow> bool" where
  "is_sub sub [] = (sub = [])"
| "is_sub sub (c # cs) = (if prefix sub (c # cs) then True else is_sub sub cs)"

text \<open>\<^verbatim>\<open>s.rstrip()\<close>: trailing white space removed.\<close>

definition rstrip :: "string \<Rightarrow> string" where
  "rstrip s = rev (dropWhile is_space (rev s))"

text \<open>\<^verbatim>\<open>s.endswith(t)\<close>.\<close>

definition endswith :: "string \<Rightarrow> string \<Rightarrow> bool" where
  "endswith s t = suffix t s"

text \<open>\<^verbatim>\<open>sep.join(parts)\<close>.\<close>

fun join :: "string \<Rightarrow> string list \<Rightarrow> string" where
  "join sep [] = []"
| "join sep [p] = p"
| "join sep (p # q # ps) = p @ sep @ join sep (q # ps)"

text \<open>
  \<^verbatim>\<open>s.split(sep)\<close> for a separator that is not empty: the pieces between the
  occurrences of \<open>sep\<close>, found from the left without overlap. (Python raises
  \<^verbatim>\<open>ValueError\<close> on an empty separator; the scripts only pass the constants
  \<^verbatim>\<open>'\n'\<close>, \<^verbatim>\<open>'('\<close>, \<^verbatim>\<open>'.class'\<close> and \<^verbatim>\<open>'_'\<close>, and the model returns
  the text unsplit there.)
\<close>

function split :: "string \<Rightarrow> string \<Rightarrow> string list" where
  "split sep [] = [[]]"
| "split sep (c # cs) =
     (if sep \<noteq> [] \<and> prefix sep (c # cs) then [] # split sep (drop (length sep) (c # cs))
      else (case split sep cs of [] \<Rightarrow> [[c]] | p # ps \<Rightarrow> (c # p) # ps))"
  by pat_completeness auto
termination
  by (relation "measure (\<lambda>(sep, s). length s)") (auto simp: Suc_leI)

text \<open>
  \<^verbatim>\<open>s.replace(old, new)\<close>: every occurrence of \<open>old\<close>, found from the left without
  overlap, becomes \<open>new\<close>. With an empty \<open>old\<close> Python puts \<open>new\<close> before every
  character and at the end.
\<close>

function replace :: "string \<Rightarrow> string \<Rightarrow> string \<Rightarrow> string" where
  "replace old new [] = (if old = [] then new else [])"
| "replace old new (c # cs) =
     (if old = [] then new @ c # replace old new cs
      else if prefix old (c # cs) then new @ replace old new (drop (length old) (c # cs))
      else c # replace old new cs)"
  by pat_completeness auto
termination
  by (relation "measure (\<lambda>(old, new, s). length s)") (auto simp: Suc_leI)

text \<open>\<^verbatim>\<open>xs.insert(i, x)\<close> for \<open>i \<ge> 0\<close>: past the end it appends.\<close>

definition list_insert :: "nat \<Rightarrow> 'a \<Rightarrow> 'a list \<Rightarrow> 'a list" where
  "list_insert i x xs = take i xs @ x # drop i xs"

section \<open>Regular expressions\<close>

text \<open>
  The scripts hand pattern strings to Python's \<^verbatim>\<open>re\<close> module. The patterns use only
  literal characters, \<^verbatim>\<open>.\<close>, \<^verbatim>\<open>\s\<close>, an escaped punctuation character
  (\<^verbatim>\<open>\(\<close>, \<^verbatim>\<open>\)\<close>, \<^verbatim>\<open>\$\<close>), the greedy quantifiers \<^verbatim>\<open>*\<close> and \<^verbatim>\<open>+\<close> after a single
  character, and groups \<^verbatim>\<open>( )\<close> that no quantifier follows. \<open>re_compile\<close> reads
  exactly that fragment, so a pattern of the source is written here as the same string.
\<close>

datatype atom = Lit char | Dot | DotAll | Space

datatype item = One atom | Star atom | Plus atom | GroupOpen | GroupClose

type_synonym regex = "item list"

datatype token = Atom atom | QStar | QPlus | LParen | RParen

text \<open>The flag is \<^verbatim>\<open>re.DOTALL\<close>: with it \<^verbatim>\<open>.\<close> also matches a newline.\<close>

definition plain_token :: "bool \<Rightarrow> char \<Rightarrow> token" where
  "plain_token dotall c =
     (if c = CHR ''.'' then Atom (if dotall then DotAll else Dot)
      else if c = CHR ''*'' then QStar
      else if c = CHR ''+'' then QPlus
      else if c = CHR ''('' then LParen
      else if c = CHR '')'' then RParen
      else Atom (Lit c))"

definition escaped_token :: "char \<Rightarrow> token" where
  "escaped_token c = (if c = CHR ''s'' then Atom Space else Atom (Lit c))"

fun re_tokens :: "bool \<Rightarrow> string \<Rightarrow> token list" where
  "re_tokens dotall [] = []"
| "re_tokens dotall [c] = [plain_token dotall c]"
| "re_tokens dotall (c # e # r) =
     (if c = bs then escaped_token e # re_tokens dotall r
      else plain_token dotall c # re_tokens dotall (e # r))"

text \<open>A quantifier binds to the atom before it. (A quantifier with nothing before it
  is an \<^verbatim>\<open>re.error\<close> in Python; no pattern of the scripts has one, and the model
  drops it.)\<close>

fun re_items :: "token list \<Rightarrow> regex" where
  "re_items [] = []"
| "re_items (Atom a # QStar # r) = Star a # re_items r"
| "re_items (Atom a # QPlus # r) = Plus a # re_items r"
| "re_items (Atom a # r) = One a # re_items r"
| "re_items (LParen # r) = GroupOpen # re_items r"
| "re_items (RParen # r) = GroupClose # re_items r"
| "re_items (QStar # r) = re_items r"
| "re_items (QPlus # r) = re_items r"

definition re_compile :: "bool \<Rightarrow> string \<Rightarrow> regex" where
  "re_compile dotall pattern = re_items (re_tokens dotall pattern)"

fun atom_ok :: "atom \<Rightarrow> char \<Rightarrow> bool" where
  "atom_ok (Lit l) c = (c = l)"
| "atom_ok Dot c = (c \<noteq> nl)"
| "atom_ok DotAll c = True"
| "atom_ok Space c = is_space c"

text \<open>
  \<open>rmatch r s\<close> is the backtracking matcher at the start of \<open>s\<close>: the length of
  the match Python finds there, or \<open>None\<close>. A greedy quantifier first takes as many
  characters as it can and gives them back one by one while the rest of the pattern
  fails.
\<close>

fun rmatch :: "regex \<Rightarrow> string \<Rightarrow> nat option" where
  "rmatch [] s = Some 0"
| "rmatch (GroupOpen # r) s = rmatch r s"
| "rmatch (GroupClose # r) s = rmatch r s"
| "rmatch (One a # r) [] = None"
| "rmatch (One a # r) (c # cs) =
     (if atom_ok a c then map_option Suc (rmatch r cs) else None)"
| "rmatch (Plus a # r) [] = None"
| "rmatch (Plus a # r) (c # cs) =
     (if atom_ok a c then map_option Suc (rmatch (Star a # r) cs) else None)"
| "rmatch (Star a # r) [] = rmatch r []"
| "rmatch (Star a # r) (c # cs) =
     (if atom_ok a c
      then (case rmatch (Star a # r) cs of
              Some n \<Rightarrow> Some (Suc n)
            | None \<Rightarrow> rmatch r (c # cs))
      else rmatch r (c # cs))"

text \<open>\<^verbatim>\<open>re.search\<close>: the leftmost match, as \<open>(start, end)\<close>.\<close>

fun search_from :: "regex \<Rightarrow> nat \<Rightarrow> string \<Rightarrow> (nat \<times> nat) option" where
  "search_from r i [] = (case rmatch r [] of Some n \<Rightarrow> Some (i, i + n) | None \<Rightarrow> None)"
| "search_from r i (c # cs) =
     (case rmatch r (c # cs) of
        Some n \<Rightarrow> Some (i, i + n)
      | None \<Rightarrow> search_from r (Suc i) cs)"

definition re_search :: "string \<Rightarrow> string \<Rightarrow> (nat \<times> nat) option" where
  "re_search pattern s = search_from (re_compile False pattern) 0 s"

text \<open>\<^verbatim>\<open>result.group()\<close>, \<^verbatim>\<open>contents[:result.start()]\<close> and
  \<^verbatim>\<open>contents[result.end():]\<close> of a match \<open>(start, end)\<close>.\<close>

definition group :: "string \<Rightarrow> nat \<times> nat \<Rightarrow> string" where
  "group s m = take (snd m - fst m) (drop (fst m) s)"

text \<open>
  The replacement template of \<^verbatim>\<open>re.sub\<close>: \<^verbatim>\<open>\n\<close> is a newline and \<^verbatim>\<open>\1\<close> the text
  of group 1. The one pattern of the scripts whose template refers to a group,
  \<^verbatim>\<open>(</dependencies>)\<close>, is a single group around the whole pattern, so the model
  passes the whole match for group 1.
\<close>

fun expand_template :: "string \<Rightarrow> string \<Rightarrow> string" where
  "expand_template [] g = []"
| "expand_template [c] g = [c]"
| "expand_template (c # e # r) g =
     (if c = bs then
        (if e = CHR ''n'' then nl # expand_template r g
         else if e = CHR ''1'' then g @ expand_template r g
         else e # expand_template r g)
      else c # expand_template (e # r) g)"

text \<open>
  \<^verbatim>\<open>re.sub\<close> with a compiled pattern: every match, found from the left without overlap,
  is replaced by the expanded template. (After an empty match Python copies one
  character and goes on; no pattern of the scripts matches the empty text.)
\<close>

function sub_all :: "regex \<Rightarrow> string \<Rightarrow> string \<Rightarrow> string" where
  "sub_all r repl [] = (case rmatch r [] of Some n \<Rightarrow> expand_template repl [] | None \<Rightarrow> [])"
| "sub_all r repl (c # cs) =
     (case rmatch r (c # cs) of
        None \<Rightarrow> c # sub_all r repl cs
      | Some 0 \<Rightarrow> expand_template repl [] @ c # sub_all r repl cs
      | Some (Suc n) \<Rightarrow> expand_template repl (take (Suc n) (c # cs)) @ sub_all r repl (drop n cs))"
  by pat_completeness auto
termination
  by (relation "measure (\<lambda>(r, repl, s). length s)") auto

definition re_sub :: "string \<Rightarrow> string \<Rightarrow> string \<Rightarrow> string" where
  "re_sub pattern repl s = sub_all (re_compile False pattern) repl s"

text \<open>\<^verbatim>\<open>re.sub(..., flags=re.DOTALL | re.MULTILINE)\<close>; the patterns have no anchor, so
  only \<^verbatim>\<open>DOTALL\<close> changes a match.\<close>

definition re_sub_dotall :: "string \<Rightarrow> string \<Rightarrow> string \<Rightarrow> string" where
  "re_sub_dotall pattern repl s = sub_all (re_compile True pattern) repl s"

text \<open>\<^verbatim>\<open>re.finditer\<close>, as the list of the matched texts.\<close>

function find_all :: "regex \<Rightarrow> string \<Rightarrow> string list" where
  "find_all r [] = (case rmatch r [] of Some n \<Rightarrow> [[]] | None \<Rightarrow> [])"
| "find_all r (c # cs) =
     (case rmatch r (c # cs) of
        None \<Rightarrow> find_all r cs
      | Some 0 \<Rightarrow> [] # find_all r cs
      | Some (Suc n) \<Rightarrow> take (Suc n) (c # cs) # find_all r (drop n cs))"
  by pat_completeness auto
termination
  by (relation "measure (\<lambda>(r, s). length s)") auto

definition re_finditer :: "string \<Rightarrow> string \<Rightarrow> string list" where
  "re_finditer pattern s = find_all (re_compile False pattern) s"

section \<open>The Java rewrite (\<^verbatim>\<open>scripts/convert.py\<close>)\<close>

subsection \<open>Import path remap and import deduplication\<close>

text \<open>The list \<^verbatim>\<open>imports\<close> of \<^verbatim>\<open>replace_imports\<close>.\<close>

definition import_renames :: "(string \<times> string) list" where
  "import_renames =
   [(''com.applause.auto.pageobjectmodel.elements.BaseElement'',
   ''com.applause.auto.pageobjectmodel.base.BaseElement''),
   (''com.applause.allure.appenders'',
   ''com.applause.auto.helpers.allure.appenders''),
   (''com.applause.allure'',
   ''com.applause.auto.helpers.allure''),
   (''com.applause.email'',
   ''com.applause.auto.helpers.email''),
   (''com.applause.google'',
   ''com.applause.auto.helpers.google''),
   (''com.applause.http.mapping'',
   ''com.applause.auto.helpers.http.mapping''),
   (''com.applause.http.restassured.client'',
   ''com.applause.auto.helpers.http.restassured.client''),
   (''com.applause.http.restassured'',
   ''com.applause.auto.helpers.http.restassured''),
   (''com.applause.jira.annotations.scanner'',
   ''com.applause.auto.helpers.jira.annotations.scanner''),
   (''com.applause.jira.annotations'',
   ''com.applause.auto.helpers.jira.annotations''),
   (''com.applause.jira.clients.modules.jira'',
   ''com.applause.auto.helpers.jira.clients.modules.jira''),
   (''com.applause.jira.clients.modules.xray'',
   ''com.applause.auto.helpers.jira.clients.modules.xray''),
   (''com.applause.jira.clients'',
   ''com.applause.auto.helpers.jira.clients''),
   (''com.applause.jira.constants'',
   ''com.applause.auto.helpers.jira.constants''),
   (''com.applause.jira.dto.jql'',
   ''com.applause.auto.helpers.jira.dto.jql''),
   (''com.applause.jira.dto.requestmappers'',
   ''com.applause.auto.helpers.jira.dto.requestmappers''),
   (''com.applause.jira.dto.responsemappers.iteration'',
   ''com.applause.auto.helpers.jira.dto.responsemappers.iteration''),
   (''com.applause.jira.dto.responsemappers.steps'',
   ''com.applause.auto.helpers.jira.dto.responsemappers.steps''),
   (''com.applause.jira.dto.responsemappers'',
   ''com.applause.auto.helpers.jira.dto.responsemappers''),
   (''com.applause.jira.dto.shared'',
   ''com.applause.auto.helpers.jira.dto.shared''),
   (''com.applause.jira.exceptions'',
   ''com.applause.auto.helpers.jira.exceptions''),
   (''com.applause.jira.helper'',
   ''com.applause.auto.helpers.jira.helper''),
   (''com.applause.jira.listeners'',
   ''com.applause.auto.testng.listeners''),
   (''com.applause.jira.restclient'',
   ''com.applause.auto.helpers.jira.restclient''),
   (''com.applause.mobile.deeplinks'',
   ''com.applause.auto.helpers.mobile.deeplinks''),
   (''com.applause.mobile.file_uploading.SauceLabs'',
   ''com.applause.auto.helpers.mobile.fileuploading.saucelabs''),
   (''com.applause.mobile'',
   ''com.applause.auto.helpers.mobile''),
   (''com.applause.testdata.yaml'',
   ''com.applause.auto.helpers.testdata.yaml''),
   (''com.applause.testdata'',
   ''com.applause.auto.helpers.testdata''),
   (''com.applause.util'',
   ''com.applause.auto.helpers.util''),
   (''com.applause.web'',
   ''com.applause.auto.helpers.web'')]"

text \<open>The import-line test of both loops over lines, \<^verbatim>\<open>line[:6] == "import"\<close>.\<close>

definition is_import :: "string \<Rightarrow> bool" where
  "is_import line = (take 6 line = ''import'')"

text \<open>The second loop of \<^verbatim>\<open>replace_imports\<close>: \<open>existing_imports\<close> holds the import
  lines seen so far; the result is \<^verbatim>\<open>lines_without_duplicates\<close>.\<close>

fun drop_duplicate_imports :: "string set \<Rightarrow> string list \<Rightarrow> string list" where
  "drop_duplicate_imports existing_imports [] = []"
| "drop_duplicate_imports existing_imports (line # lines) =
     (if line \<in> existing_imports then drop_duplicate_imports existing_imports lines
      else if is_import line
      then line # drop_duplicate_imports (insert line existing_imports) lines
      else line # drop_duplicate_imports existing_imports lines)"

definition replace_imports :: "string \<Rightarrow> string" where
  "replace_imports contents =
     join [nl] (drop_duplicate_imports {}
       (split [nl] (foldl (\<lambda>c (old_import, new_import). re_sub old_import new_import c)
          contents import_renames)))"

subsection \<open>Conditional import insertion\<close>

text \<open>
  The loop of \<^verbatim>\<open>add_import_if_not_present\<close> over \<^verbatim>\<open>enumerate(lines)\<close>, with the
  index \<open>i\<close> of the current line; it returns \<^verbatim>\<open>last_import\<close>, \<^verbatim>\<open>contains_import\<close>
  and \<^verbatim>\<open>lines_without_duplicates\<close>.
\<close>

fun scan_lines ::
  "string \<Rightarrow> nat \<Rightarrow> string list \<Rightarrow> string set \<Rightarrow> nat \<Rightarrow> bool \<Rightarrow> string list
     \<Rightarrow> nat \<times> bool \<times> string list" where
  "scan_lines import_statement i [] existing_imports last_import contains_import kept =
     (last_import, contains_import, kept)"
| "scan_lines import_statement i (line # lines) existing_imports last_import contains_import kept =
     (if line \<in> existing_imports
      then scan_lines import_statement (Suc i) lines existing_imports last_import
             contains_import kept
      else if is_import line
      then scan_lines import_statement (Suc i) lines (insert (rstrip line) existing_imports) i
             (contains_import \<or> endswith (rstrip line) import_statement) (kept @ [rstrip line])
      else scan_lines import_statement (Suc i) lines existing_imports last_import
             contains_import (kept @ [rstrip line]))"

definition add_import_if_not_present :: "string \<Rightarrow> string \<Rightarrow> string" where
  "add_import_if_not_present import_statement contents =
     (case scan_lines import_statement 0 (split [nl] contents) {} 1 False [] of
        (last_import, contains_import, lines_without_duplicates) \<Rightarrow>
          join [nl]
            (if contains_import then lines_without_duplicates
             else list_insert last_import import_statement lines_without_duplicates))"

subsection \<open>Locator annotation migration\<close>

definition locators :: "(string \<times> string) list" where
  "locators =
   [(''@Locate'' @ bs # ''('' @ bs # ''s*id = '',
   ''using = Strategy.ID, value = ''),
   (''@Locate'' @ bs # ''('' @ bs # ''s*css = '',
   ''using = Strategy.CSS, value = ''),
   (''@Locate'' @ bs # ''('' @ bs # ''s*xpath = '',
   ''using = Strategy.XPATH, value = ''),
   (''@Locate'' @ bs # ''('' @ bs # ''s*className = '',
   ''using = Strategy.CLASSNAME, value = ''),
   (''@Locate'' @ bs # ''('' @ bs # ''s*name = '',
   ''using = Strategy.NAME, value = ''),
   (''@Locate'' @ bs # ''('' @ bs # ''s*tagName = '',
   ''using = Strategy.TAGNAME, value = ''),
   (''@Locate'' @ bs # ''('' @ bs # ''s*linkText = '',
   ''using = Strategy.LINKTEXT, value = ''),
   (''@Locate'' @ bs # ''('' @ bs # ''s*accessibilityId = '',
   ''using = Strategy.ACCESSIBILITYID, value = ''),
   (''@Locate'' @ bs # ''('' @ bs # ''s*androidUIAutomator = '',
   ''using = Strategy.ANDROID_UIAUTOMATOR, value = ''),
   (''@Locate'' @ bs # ''('' @ bs # ''s*iOSClassChain = '',
   ''using = Strategy.IOS_CLASSCHAIN, value = ''),
   (''@Locate'' @ bs # ''('' @ bs # ''s*iOSNsPredicate = '',
   ''using = Strategy.IOS_NSPREDICATE, value = ''),
   (''@Locate'' @ bs # ''('' @ bs # ''s*appiumClassName = '',
   ''using = Strategy.APPIUM_CLASSNAME, value = ''),
   (''@Locate'' @ bs # ''('' @ bs # ''s*jQuery = '',
   ''using = Strategy.JQUERY, value = ''),
   (''@Locate'' @ bs # ''('' @ bs # ''s*javascript = '',
   ''using = Strategy.JAVASCRIPT, value = '')]"

definition strategy_import :: string where
  "strategy_import = ''import com.applause.auto.pageobjectmodel.base.Strategy;''"

text \<open>
  The first loop of \<^verbatim>\<open>fix_locators\<close> tests \<^verbatim>\<open>old_style_locator in contents\<close>, the
  substring test of \<^verbatim>\<open>str\<close> on the pattern string itself, and adds the import at the
  first hit; the second loop hands the same strings to \<^verbatim>\<open>re.sub\<close>.
\<close>

definition fix_locators :: "string \<Rightarrow> string" where
  "fix_locators contents =
     foldl (\<lambda>c (old_style_locator, new_style_locator).
              re_sub old_style_locator (''@Locate('' @ new_style_locator) c)
       (if list_ex (\<lambda>(old_style_locator, new_style_locator). is_sub old_style_locator contents)
             locators
        then add_import_if_not_present strategy_import contents
        else contents)
       locators"

subsection \<open>Advisory check\<close>

definition sub_component_warning :: string where
  "sub_component_warning = ''@Locate annotation found without an underlying locator. If no locator is tied to the element, please add the @SubComponent annotation.''"

definition check_for_sub_components :: "string \<Rightarrow> string option" where
  "check_for_sub_components contents =
     (if list_ex (\<lambda>g. \<not> is_sub ''using'' g)
           (re_finditer (''@Locate'' @ bs # ''(.*'' @ bs # '')'') contents)
      then Some sub_component_warning else None)"

subsection \<open>Singleton-accessor rewrite\<close>

definition check_for_applause_config_usage :: "string \<Rightarrow> string" where
  "check_for_applause_config_usage contents =
     re_sub ''ApplauseEnvironmentConfigurationManager.get()''
       ''ApplauseEnvironmentConfigurationManager.INSTANCE.get()'' contents"

definition check_for_config_usage :: "string \<Rightarrow> string" where
  "check_for_config_usage contents =
     re_sub ''EnvironmentConfigurationManager.get()''
       ''EnvironmentConfigurationManager.INSTANCE.get()'' contents"

subsection \<open>Factory-call rewrite\<close>

datatype error =
  IndexError | FileNotFoundError string | IsADirectoryError string | NotADirectoryError string

definition builder_import :: string where
  "builder_import = ''import com.applause.auto.pageobjectmodel.builder.PageObjectBuilder;''"

text \<open>The pattern of the search before the loop, and the pattern of the search at the
  end of the loop body (it has no semicolon).\<close>

definition create_call_first :: string where
  "create_call_first = ''SdkHelper.create'' @ bs # ''(.+.class'' @ bs # '');''"

definition create_call_again :: string where
  "create_call_again = ''SdkHelper.create'' @ bs # ''(.+.class'' @ bs # '')''"

text \<open>
  The first two statements of the loop body, for the match \<open>result\<close>:
  \<^verbatim>\<open>result.group().split('(')[1]\<close> raises \<^verbatim>\<open>IndexError\<close> when the split has one
  piece; \<^verbatim>\<open>.split('.class')[0]\<close> always exists.
\<close>

definition splice_builder :: "string \<Rightarrow> nat \<times> nat \<Rightarrow> error + string" where
  "splice_builder contents result =
     (case split ''('' (group contents result) of
        _ # piece # _ \<Rightarrow>
          (let className = hd (split ''.class'' piece) in
           Inr (take (fst result) contents
                @ ''PageObjectBuilder.withContext(SdkHelper.getDriverContext()).forBaseComponent(''
                @ className @ ''.class).initialize();''
                @ drop (snd result) contents))
      | _ \<Rightarrow> Inl IndexError)"

text \<open>
  The \<^verbatim>\<open>while result is not None\<close> loop on the state \<open>(contents, result)\<close>. Nothing
  in the code bounds the number of iterations, so the loop is a partial function:
  \<open>None\<close> stands for a loop that never ends, \<open>Some (Inl e)\<close> for the exception \<open>e\<close>.
\<close>

partial_function (option) sdk_helper_loop ::
  "string \<times> (nat \<times> nat) option \<Rightarrow> (error + string) option" where
  "sdk_helper_loop st =
     (case snd st of
        None \<Rightarrow> Some (Inr (fst st))
      | Some result \<Rightarrow>
          (case splice_builder (fst st) result of
             Inl e \<Rightarrow> Some (Inl e)
           | Inr spliced \<Rightarrow>
               (let contents = add_import_if_not_present builder_import spliced in
                sdk_helper_loop (contents, re_search create_call_again contents))))"

declare sdk_helper_loop.simps [code]

definition remove_sdk_helper_create :: "string \<Rightarrow> (error + string) option" where
  "remove_sdk_helper_create contents =
     sdk_helper_loop (contents, re_search create_call_first contents)"

subsection \<open>The passes of \<^verbatim>\<open>convert_java\<close> on the contents of one file\<close>

text \<open>The body of the first \<^verbatim>\<open>with\<close> block: the rewritten contents and the list
  \<^verbatim>\<open>warnings\<close> (one entry, \<open>None\<close> when the check found nothing).\<close>

definition java_passes :: "string \<Rightarrow> (error + string \<times> string option list) option" where
  "java_passes contents =
     (case remove_sdk_helper_create
             (check_for_config_usage (check_for_applause_config_usage
                (fix_locators (replace_imports contents)))) of
        None \<Rightarrow> None
      | Some (Inl e) \<Rightarrow> Some (Inl e)
      | Some (Inr contents') \<Rightarrow> Some (Inr (contents', [check_for_sub_components contents'])))"

section \<open>Files and the command line\<close>

text \<open>
  The file system the scripts see is a tree: a file holds its text, a directory lists
  its entries in the order \<^verbatim>\<open>os.walk\<close> reports them (each name once). The tree is
  the whole file system and the script runs in its root directory, so an absolute path
  and the relative path with the same parts name the same file. There are no symbolic
  links.
\<close>

datatype node = File string | Dir "(string \<times> node) list"

text \<open>The node a list of names leads to.\<close>

fun lookup :: "string list \<Rightarrow> node \<Rightarrow> node option" where
  "lookup [] n = Some n"
| "lookup (p # ps) (File text) = None"
| "lookup (p # ps) (Dir entries) =
     (case map_of entries p of None \<Rightarrow> None | Some n \<Rightarrow> lookup ps n)"

text \<open>
  The parts of a path are followed from left to right as the operating system does:
  every part is taken in a directory that exists (in a file it is \<^verbatim>\<open>ENOTDIR\<close>, in
  nothing \<^verbatim>\<open>ENOENT\<close>), an empty part or \<^verbatim>\<open>.\<close> stays there, \<^verbatim>\<open>..\<close> steps back to
  the parent (the root is its own parent). \<open>here\<close> holds the names from the root to
  the directory reached, the last one first; the result is the list of names of the
  node the path leads to.
\<close>

datatype path_error = NoEntry | NotDirectory

fun canonical :: "node \<Rightarrow> string list \<Rightarrow> string list \<Rightarrow> path_error + string list" where
  "canonical root here [] =
     (case lookup (rev here) root of None \<Rightarrow> Inl NoEntry | Some n \<Rightarrow> Inr (rev here))"
| "canonical root here (p # ps) =
     (case lookup (rev here) root of
        None \<Rightarrow> Inl NoEntry
      | Some (File text) \<Rightarrow> Inl NotDirectory
      | Some (Dir entries) \<Rightarrow>
          (if p = [] \<or> p = ''.'' then canonical root here ps
           else if p = ''..'' then canonical root (tl here) ps
           else canonical root (p # here) ps))"

definition resolve :: "string \<Rightarrow> node \<Rightarrow> path_error + node" where
  "resolve path root =
     (if path = [] then Inl NoEntry
      else (case canonical root [] (split ''/'' path) of
              Inl e \<Rightarrow> Inl e
            | Inr names \<Rightarrow>
                (case lookup names root of None \<Rightarrow> Inl NoEntry | Some n \<Rightarrow> Inr n)))"

text \<open>\<^verbatim>\<open>os.path.isfile\<close> and \<^verbatim>\<open>os.path.isdir\<close>.\<close>

definition isfile :: "node \<Rightarrow> string \<Rightarrow> bool" where
  "isfile root path = (case resolve path root of Inr (File text) \<Rightarrow> True | _ \<Rightarrow> False)"

definition isdir :: "node \<Rightarrow> string \<Rightarrow> bool" where
  "isdir root path = (case resolve path root of Inr (Dir entries) \<Rightarrow> True | _ \<Rightarrow> False)"

text \<open>
  Reading in text mode translates the line ends \<^verbatim>\<open>\r\n\<close> and \<^verbatim>\<open>\r\<close> to
  \<^verbatim>\<open>\n\<close>. (Writing leaves \<^verbatim>\<open>\n\<close> as it is where the line separator of the
  platform is \<^verbatim>\<open>\n\<close>, which the model takes.)
\<close>

fun translate_newlines :: "string \<Rightarrow> string" where
  "translate_newlines [] = []"
| "translate_newlines [c] = (if c = CHR 0x0D then [nl] else [c])"
| "translate_newlines (c # d # r) =
     (if c = CHR 0x0D
      then (if d = nl then nl # translate_newlines r else nl # translate_newlines (d # r))
      else c # translate_newlines (d # r))"

text \<open>\<^verbatim>\<open>open(path, 'r').read()\<close>: the text of the file, or the exception.\<close>

definition read_file :: "node \<Rightarrow> string \<Rightarrow> error + string" where
  "read_file root path =
     (case resolve path root of
        Inr (File text) \<Rightarrow> Inr (translate_newlines text)
      | Inr (Dir entries) \<Rightarrow> Inl (IsADirectoryError path)
      | Inl NotDirectory \<Rightarrow> Inl (NotADirectoryError path)
      | Inl NoEntry \<Rightarrow> Inl (FileNotFoundError path))"

text \<open>\<^verbatim>\<open>open(path, 'w').write(text)\<close>. Both scripts write a path only after they have
  read it, so the file exists; the model changes nothing when it does not.\<close>

fun store :: "string list \<Rightarrow> string \<Rightarrow> node \<Rightarrow> node" where
  "store [] text (File old) = File text"
| "store [] text (Dir entries) = Dir entries"
| "store (p # ps) text (File old) = File old"
| "store (p # ps) text (Dir entries) =
     Dir (map (\<lambda>(name, n). (name, if name = p then store ps text n else n)) entries)"

definition write_file :: "node \<Rightarrow> string \<Rightarrow> string \<Rightarrow> node" where
  "write_file root path text =
     (if path = [] then root
      else (case canonical root [] (split ''/'' path) of
              Inl e \<Rightarrow> root
            | Inr names \<Rightarrow> store names text root))"

text \<open>\<^verbatim>\<open>os.path.join(root, name)\<close> for a plain file name.\<close>

definition path_join :: "string \<Rightarrow> string \<Rightarrow> string" where
  "path_join root name =
     (if root = [] \<or> endswith root ''/'' then root @ name else root @ ''/'' @ name)"

text \<open>
  \<^verbatim>\<open>os.walk(dirpath)\<close>, top down: for every directory from \<open>dirpath\<close> on, its path and the
  names of its files. The scripts never read the list of subdirectories. They only
  rewrite texts of files that exist, which leaves the shape of the tree as it is, so
  the walk is taken from the tree before the loop.
\<close>

fun walk :: "string \<Rightarrow> node \<Rightarrow> (string \<times> string list) list" where
  "walk dirpath (File text) = []"
| "walk dirpath (Dir entries) =
     (dirpath, concat (map (\<lambda>(name, n). case n of File text \<Rightarrow> [name] | Dir sub \<Rightarrow> []) entries))
     # concat (map (\<lambda>(name, n). case n of File text \<Rightarrow> []
                                    | Dir sub \<Rightarrow> walk (path_join dirpath name) n) entries)"

text \<open>What a run has done so far: the tree and the lines printed to standard output.\<close>

record world =
  tree :: node
  stdout :: "string list"

definition print :: "string \<Rightarrow> world \<Rightarrow> world" where
  "print line w = w\<lparr>stdout := stdout w @ [line]\<rparr>"

text \<open>
  A step of a run ends in one of three ways: \<open>Some (Inr x)\<close> returns \<open>x\<close>,
  \<open>Some (Inl e)\<close> is the uncaught exception \<open>e\<close>, which ends the process, and
  \<open>None\<close> is a step that never returns.
\<close>

type_synonym 'a outcome = "(error + 'a) option"

definition and_then :: "'a outcome \<Rightarrow> ('a \<Rightarrow> 'b outcome) \<Rightarrow> 'b outcome" where
  "and_then m f = (case m of None \<Rightarrow> None | Some (Inl e) \<Rightarrow> Some (Inl e) | Some (Inr x) \<Rightarrow> f x)"

subsection \<open>\<^verbatim>\<open>convert_java\<close> and \<^verbatim>\<open>convert_pom\<close>\<close>

definition convert_java :: "string \<Rightarrow> world \<Rightarrow> (string option list \<times> world) outcome" where
  "convert_java filepath w =
     (case read_file (tree w) filepath of
        Inl e \<Rightarrow> Some (Inl e)
      | Inr contents \<Rightarrow>
          and_then (java_passes contents) (\<lambda>(contents', warnings).
            Some (Inr (warnings,
              print (''Converted '' @ filepath)
                (w\<lparr>tree := write_file (tree w) filepath contents'\<rparr>)))))"

definition pom_substitutions :: "(string \<times> string) list" where
  "pom_substitutions =
   [(''<com.applause.sdk.java.version>.+</com.applause.sdk.java.version>'',
   ''<com.applause.sdk.java.version>6.0.0</com.applause.sdk.java.version>''),
   (''<source>17</source>'',
   ''<source>21</source>''),
   (''<target>17</target>'',
   ''<target>21</target>''),
   (''<dependency>'' @ bs # ''s+<groupId>com.applause</groupId>'' @ bs # ''s+<artifactId>auto.sdk.java</artifactId>'' @ bs # ''s+<version>.*</version>'' @ bs # ''s+<type>pom</type>'' @ bs # ''s+<scope>import</scope>'' @ bs # ''s+</dependency>'',
   ''<dependency>\<newline>                <groupId>com.applause</groupId>\<newline>                <artifactId>auto-sdk-java-page-object</artifactId>\<newline>                <version>${com.applause.sdk.java.version}</version>\<newline>            </dependency>\<newline>            <dependency>\<newline>                <groupId>com.applause</groupId>\<newline>                <artifactId>auto-sdk-java-testng</artifactId>\<newline>                <version>${com.applause.sdk.java.version}</version>\<newline>            </dependency>''),
   ('''' @ bs # ''s*<repository>'' @ bs # ''s*<id>github</id>'' @ bs # ''s*<name>GitHub OWNER Apache Maven Packages</name>'' @ bs # ''s*<url>https://maven.pkg.github.com/ApplauseAuto/helper-sdk.auto</url>'' @ bs # ''s*<releases>'' @ bs # ''s*<enabled>true</enabled>'' @ bs # ''s*<updatePolicy>always</updatePolicy>'' @ bs # ''s*</releases>'' @ bs # ''s*<snapshots>'' @ bs # ''s*<enabled>true</enabled>'' @ bs # ''s*</snapshots>'' @ bs # ''s*</repository>'' @ bs # ''s*'',
   ''''),
   ('''' @ bs # ''s*<dependency>'' @ bs # ''s*<artifactId>helper-sdk</artifactId>'' @ bs # ''s*<groupId>com.applause</groupId>'' @ bs # ''s*<version>'' @ bs # ''${helper.sdk.version}</version>'' @ bs # ''s*</dependency>'' @ bs # ''s*'',
   ''''),
   (''(</dependencies>)'',
   ''<dependency>\<newline>                    <groupId>com.applause</groupId>\<newline>                    <artifactId>auto-sdk-java-helpers</artifactId>\<newline>                    <version>${com.applause.sdk.java.version}</version>\<newline>                </dependency>'' @ bs # ''n'' @ bs # ''1'')]"

definition convert_pom :: "string \<Rightarrow> world \<Rightarrow> world outcome" where
  "convert_pom filepath w =
     (case read_file (tree w) filepath of
        Inl e \<Rightarrow> Some (Inl e)
      | Inr new_pom \<Rightarrow>
          Some (Inr (print (''Converted '' @ filepath)
            (w\<lparr>tree := write_file (tree w) filepath
                 (foldl (\<lambda>p (old_line, new_line). re_sub_dotall old_line new_line p)
                    new_pom pom_substitutions)\<rparr>))))"

subsection \<open>The main loop of \<^verbatim>\<open>convert.py\<close>\<close>

text \<open>The dictionary \<^verbatim>\<open>warnings\<close> keeps its keys in the order they were first stored;
  storing under a key it has replaces the value in place.\<close>

type_synonym warnings = "(string \<times> string option list) list"

text \<open>The body of \<^verbatim>\<open>for path in files\<close>, for one file name \<open>path\<close> of the
  directory \<open>root\<close>.\<close>

definition visit_file ::
  "string \<Rightarrow> string \<Rightarrow> warnings \<times> world \<Rightarrow> (warnings \<times> world) outcome" where
  "visit_file root path st =
     and_then
       (if drop (length path - 5) path = ''.java''
        then and_then (convert_java (path_join root path) (snd st))
               (\<lambda>(warning_list, w). Some (Inr (AList.update path warning_list (fst st), w)))
        else Some (Inr st))
       (\<lambda>(warnings, w).
          if path = ''pom.xml''
          then and_then (convert_pom path w) (\<lambda>w'. Some (Inr (warnings, w')))
          else Some (Inr (warnings, w)))"

text \<open>A \<^verbatim>\<open>for\<close> loop whose body may raise.\<close>

fun for_each :: "('a \<Rightarrow> 's \<Rightarrow> 's outcome) \<Rightarrow> 'a list \<Rightarrow> 's \<Rightarrow> 's outcome" where
  "for_each body [] st = Some (Inr st)"
| "for_each body (x # xs) st = and_then (body x st) (for_each body xs)"

text \<open>The body of \<^verbatim>\<open>for filepath in sys.argv[1:]\<close>.\<close>

definition visit_argument :: "string \<Rightarrow> warnings \<times> world \<Rightarrow> (warnings \<times> world) outcome" where
  "visit_argument filepath st =
     (if isfile (tree (snd st)) filepath \<and> drop (length filepath - 5) filepath = ''.java''
      then and_then (convert_java filepath (snd st)) (\<lambda>(warning_list, w). Some (Inr (fst st, w)))
      else if isfile (tree (snd st)) filepath \<and> filepath = ''pom.xml''
      then and_then (convert_pom filepath (snd st)) (\<lambda>w. Some (Inr (fst st, w)))
      else if isdir (tree (snd st)) filepath
      then for_each (\<lambda>(root, files). for_each (visit_file root) files)
             (case resolve filepath (tree (snd st)) of
                Inr n \<Rightarrow> walk filepath n
              | Inl e \<Rightarrow> [])
             st
      else Some (Inr (fst st,
             print (filepath @ '' is not a valid Java file, pom.xml, or directory.'') (snd st))))"

text \<open>The report loop over \<^verbatim>\<open>warnings.items()\<close>.\<close>

definition report :: "string \<times> string option list \<Rightarrow> world \<Rightarrow> world" where
  "report entry w =
     (if snd entry = [] then w
      else if length (filter (\<lambda>i. i \<noteq> None) (snd entry)) = 0 then w
      else foldl (\<lambda>w' warning. case warning of None \<Rightarrow> w' | Some text \<Rightarrow> print (''  - '' @ text) w')
             (print (fst entry @ '' warnings:'') w) (snd entry))"

definition usage :: "string list" where
  "usage =
    [''Usage: %s [<path-to-java-file> | <path-to-pom> | <path-to-directory>]+'',
     ''Converts files from v5.0.x API to v6.0.x API.  NOTE:  Overwrites files. This conversion is not a guaranteed fix for all issues and may generate bad code. Please review all changes before committing.'',
     ''   <path-to-java-file>    :  relative or absolute path to java file to convert'',
     ''   <path-to-pom>          :  relative or absolute path to pom.xml file to convert'',
     ''   <path-to-directory>    :  relative or absolute path to a directory with .java or pom.xml files to convert'']"

text \<open>The whole script, for the arguments \<^verbatim>\<open>sys.argv[1:]\<close>;
  \<^verbatim>\<open>args_processed\<close> is their number.\<close>

definition main :: "string list \<Rightarrow> world \<Rightarrow> world outcome" where
  "main args w =
     and_then (for_each visit_argument args ([], w)) (\<lambda>(warnings, w1).
       Some (Inr (let w2 = foldl (\<lambda>w' entry. report entry w') w1 warnings in
                  if length args = 0 then foldl (\<lambda>w' line. print line w') w2 usage else w2)))"

section \<open>The capability rewrite (\<^verbatim>\<open>scripts/appium-conversion.py\<close>)\<close>

definition unused_applause_options :: "(string \<times> string list) list" where
  "unused_applause_options =
   [(''isStrict'', [''true'', ''false'']),
   (''isMobileNative'', [''false''])]"


text \<open>The f-string \<^verbatim>\<open>f"\"{capability}\""\<close>: the key between double quotes.\<close>

definition quoted :: "string \<Rightarrow> string" where
  "quoted key = CHR 0x22 # key @ [CHR 0x22]"

text \<open>The two spellings of an obsolete pair: \<^verbatim>\<open>"option": "value",\<close> and
  \<^verbatim>\<open>"option" : "value",\<close>.\<close>

definition option_text :: "string \<Rightarrow> string \<Rightarrow> string" where
  "option_text opt val = quoted opt @ '': '' @ quoted val @ '',''"

definition option_text_spaced :: "string \<Rightarrow> string \<Rightarrow> string" where
  "option_text_spaced opt val = quoted opt @ '' : '' @ quoted val @ '',''"

text \<open>
  The state of \<^verbatim>\<open>update_appium_capabilities\<close> is the pair of \<^verbatim>\<open>contents\<close> and the
  lines printed so far. The body of the inner loop \<^verbatim>\<open>for value in values\<close>:
\<close>

definition remove_unused_option ::
  "string \<Rightarrow> string \<Rightarrow> string \<Rightarrow> string \<times> string list \<Rightarrow> string \<times> string list" where
  "remove_unused_option filepath opt val st =
     (if is_sub (option_text opt val) (fst st)
      then (replace (option_text opt val) [] (fst st),
            snd st @ [''Removing unused option: '' @ opt @ '' with value: '' @ val @ '' from '' @ filepath])
      else if is_sub (option_text_spaced opt val) (fst st)
      then (replace (option_text_spaced opt val) [] (fst st),
            snd st @ [''Removing unused option: '' @ opt @ '' with value: '' @ val @ '' from '' @ filepath])
      else st)"

definition remove_unused_options :: "string \<Rightarrow> string \<times> string list \<Rightarrow> string \<times> string list" where
  "remove_unused_options filepath st =
     foldl (\<lambda>st1 (opt, vals). foldl (\<lambda>st2 val. remove_unused_option filepath opt val st2) st1 vals)
       st unused_applause_options"








section \<open>Definitions used in the proofs\<close>

text \<open>The measure of the loop: the number of places where \<open>w\<close> starts in a text
  (for \<open>w\<close> the letters \<^verbatim>\<open>create(\<close>).\<close>

fun count_sub :: "string \<Rightarrow> string \<Rightarrow> nat" where
  "count_sub w [] = 0"
| "count_sub w (c # cs) = (if prefix w (c # cs) then 1 else 0) + count_sub w cs"

text \<open>A run of literal characters of a pattern.\<close>

abbreviation (input) lits :: "string \<Rightarrow> regex" where
  "lits l \<equiv> map (\<lambda>c. One (Lit c)) l"

text \<open>Both search patterns start with \<^verbatim>\<open>SdkHelper.create\(\<close>.\<close>

definition create_head :: regex where
  "create_head = lits ''SdkHelper'' @ One Dot # lits ''create(''"

text \<open>The two constant parts of the text the loop body splices in.\<close>

definition builder_open :: string where
  "builder_open = ''PageObjectBuilder.withContext(SdkHelper.getDriverContext()).forBaseComponent(''"

definition builder_close :: string where
  "builder_close = ''.class).initialize();''"


definition inner :: "'a list \<Rightarrow> 'a list" where
  "inner ps = butlast (tl ps)"








section \<open>Properties of the text operations\<close>

lemma split_not_Nil: "split sep s \<noteq> []"
  by (induction sep s rule: split.induct) (auto split: list.splits)

lemma join_Cons_Cons: "ps \<noteq> [] \<Longrightarrow> join sep (p # ps) = p @ sep @ join sep ps"
  by (cases ps) simp_all

lemma join_push: "join sep ((c # p) # ps) = c # join sep (p # ps)"
  by (cases ps) simp_all

lemma join_split: "sep \<noteq> [] \<Longrightarrow> join sep (split sep s) = s"
proof (induction sep s rule: split.induct)
  case (1 sep)
  then show ?case by simp
next
  case (2 sep c cs)
  show ?case
  proof (cases "prefix sep (c # cs)")
    case True
    then have "sep @ drop (length sep) (c # cs) = c # cs"
      by (auto simp: prefix_def)
    moreover have "join sep (split sep (c # cs))
        = sep @ join sep (split sep (drop (length sep) (c # cs)))"
      using True 2 by (simp add: join_Cons_Cons split_not_Nil)
    ultimately show ?thesis
      using 2 True by simp
  next
    case False
    with 2 show ?thesis
      by (cases "split sep cs") (simp_all add: join_push split_not_Nil)
  qed
qed

lemma replace_join_split:
  "sep \<noteq> [] \<Longrightarrow> replace sep new s = join new (split sep s)"
proof (induction sep s rule: split.induct)
  case (1 sep)
  then show ?case by simp
next
  case (2 sep c cs)
  show ?case
  proof (cases "prefix sep (c # cs)")
    case True
    with 2 show ?thesis
      by (simp add: join_Cons_Cons split_not_Nil)
  next
    case False
    with 2 show ?thesis
      by (cases "split sep cs") (simp_all add: join_push split_not_Nil)
  qed
qed

lemma hd_split_prefix: "prefix (hd (split sep s)) s"
  by (induction sep s rule: split.induct) (auto split: list.splits simp: split_not_Nil)

lemma is_sub_Nil [simp]: "is_sub [] s"
  by (cases s) simp_all

lemma split_pieces_free:
  "sep \<noteq> [] \<Longrightarrow> list_all (\<lambda>piece. \<not> is_sub sep piece) (split sep s)"
proof (induction sep s rule: split.induct)
  case (1 sep)
  then show ?case by simp
next
  case (2 sep c cs)
  show ?case
  proof (cases "prefix sep (c # cs)")
    case True
    with 2 show ?thesis by simp
  next
    case False
    obtain p ps where ps: "split sep cs = p # ps"
      by (cases "split sep cs") (simp_all add: split_not_Nil)
    have "prefix p cs"
      using hd_split_prefix [of sep cs] ps by simp
    then have "prefix (c # p) (c # cs)"
      by simp
    then have "\<not> prefix sep (c # p)"
      using False prefix_order.trans by blast
    with 2 False ps show ?thesis by simp
  qed
qed



lemma split_at_char:
  "c \<notin> set t \<Longrightarrow> split [c] (t @ c # r) = t # split [c] r"
  by (induction t) simp_all

lemma split_without_char:
  "c \<notin> set t \<Longrightarrow> split [c] t = [t]"
  by (induction t) simp_all


lemma split_char_pieces: "piece \<in> set (split [c] s) \<Longrightarrow> c \<notin> set piece"
proof (induction "[c]" s arbitrary: piece rule: split.induct)
  case 1
  then show ?case by simp
next
  case (2 d ds)
  show ?case
  proof (cases "d = c")
    case True
    with 2 show ?thesis by auto
  next
    case False
    obtain p ps where ps: "split [c] ds = p # ps"
      by (cases "split [c] ds") (simp_all add: split_not_Nil)
    with 2 False show ?thesis by auto
  qed
qed

lemma split_char_two: "c \<in> set s \<Longrightarrow> \<exists>a b r. split [c] s = a # b # r"
proof (induction s)
  case Nil
  then show ?case by simp
next
  case (Cons d ds)
  show ?case
  proof (cases "d = c")
    case True
    obtain p ps where "split [c] ds = p # ps"
      by (cases "split [c] ds") (simp_all add: split_not_Nil)
    with True show ?thesis by simp
  next
    case False
    with Cons obtain a b r where "split [c] ds = a # b # r"
      by auto
    with False show ?thesis by simp
  qed
qed

section \<open>Import deduplication in \<^verbatim>\<open>replace_imports\<close>\<close>

text \<open>
  On its own, the second loop of \<^verbatim>\<open>replace_imports\<close> does what its name says: no
  import line is kept twice, and every other line is kept. So the lines of the text
  \<^verbatim>\<open>replace_imports\<close> returns hold no import line twice.
\<close>

lemma drop_duplicate_imports_fresh:
  "line \<in> set (drop_duplicate_imports existing_imports lines) \<Longrightarrow> line \<notin> existing_imports"
proof (induction lines arbitrary: existing_imports)
  case Nil
  then show ?case by simp
next
  case (Cons l ls)
  show ?case
  proof (cases "l \<in> existing_imports")
    case True
    with Cons show ?thesis by simp
  next
    case False
    with Cons show ?thesis by (cases "is_import l") auto
  qed
qed

lemma drop_duplicate_imports_subset:
  "line \<in> set (drop_duplicate_imports existing_imports lines) \<Longrightarrow> line \<in> set lines"
proof (induction lines arbitrary: existing_imports)
  case Nil
  then show ?case by simp
next
  case (Cons l ls)
  show ?case
  proof (cases "l \<in> existing_imports")
    case True
    with Cons show ?thesis by simp
  next
    case False
    with Cons show ?thesis by (cases "is_import l") auto
  qed
qed

lemma drop_duplicate_imports_distinct:
  "distinct (filter is_import (drop_duplicate_imports existing_imports lines))"
proof (induction lines arbitrary: existing_imports)
  case Nil
  then show ?case by simp
next
  case (Cons line lines)
  have "line \<notin> set (drop_duplicate_imports (insert line existing_imports) lines)"
    using drop_duplicate_imports_fresh [of line "insert line existing_imports" lines] by auto
  with Cons show ?case by simp
qed

lemma drop_duplicate_imports_keeps_other_lines:
  assumes "\<forall>line \<in> existing_imports. is_import line"
  shows "filter (\<lambda>line. \<not> is_import line) (drop_duplicate_imports existing_imports lines)
      = filter (\<lambda>line. \<not> is_import line) lines"
  using assms
proof (induction lines arbitrary: existing_imports)
  case Nil
  then show ?case by simp
next
  case (Cons line lines)
  then show ?case by (cases "is_import line") auto
qed

lemma split_join_lines:
  assumes "lines \<noteq> []" and "\<forall>line \<in> set lines. c \<notin> set line"
  shows "split [c] (join [c] lines) = lines"
  using assms
proof (induction "[c]" lines rule: join.induct)
  case 1
  then show ?case by simp
next
  case (2 p)
  then show ?case by (simp add: split_without_char)
next
  case (3 p q ps)
  then show ?case by (simp add: split_at_char)
qed

lemma replace_imports_lines:
  "\<exists>lines. split [nl] (replace_imports contents) = drop_duplicate_imports {} lines"
proof -
  define lines where "lines = split [nl]
    (foldl (\<lambda>c (old_import, new_import). re_sub old_import new_import c) contents import_renames)"
  have "\<forall>line \<in> set (drop_duplicate_imports {} lines). nl \<notin> set line"
    using drop_duplicate_imports_subset [of _ "{}" lines] split_char_pieces [of _ nl]
    unfolding lines_def by blast
  moreover have "drop_duplicate_imports {} lines \<noteq> []"
    by (cases lines) (simp_all add: lines_def split_not_Nil)
  ultimately have "split [nl] (join [nl] (drop_duplicate_imports {} lines))
      = drop_duplicate_imports {} lines"
    by (intro split_join_lines)
  then show ?thesis
    unfolding replace_imports_def lines_def by blast
qed

lemma replace_imports_distinct_imports:
  "distinct (filter is_import (split [nl] (replace_imports contents)))"
  using replace_imports_lines [of contents] drop_duplicate_imports_distinct by auto

section \<open>The Java rewrite on concrete files\<close>

text \<open>
  \<^bold>\<open>C1\<close> (locator coverage). A file whose only line is \<^verbatim>\<open>@Locate(css = ".btn")\<close>
  matches the legacy spelling for \<^verbatim>\<open>css\<close>. \<^verbatim>\<open>fix_locators\<close> rewrites the
  annotation, but the test that guards the import looks for the pattern string itself
  (backslashes and all) in the text, finds nothing and adds no import: the output of
  \<^verbatim>\<open>fix_locators\<close>, and of all the passes, is the rewritten annotation alone, without
  the line \<^verbatim>\<open>import com.applause.auto.pageobjectmodel.base.Strategy;\<close>.
\<close>

theorem fix_locators_leaves_import_out:
  \<open>fix_locators ''@Locate(css = ".btn")'' = ''@Locate(using = Strategy.CSS, value = ".btn")''
   \<and> java_passes ''@Locate(css = ".btn")''
       = Some (Inr (''@Locate(using = Strategy.CSS, value = ".btn")'', [None]))\<close>
  by code_simp

text \<open>
  \<^bold>\<open>C2\<close> (warnings on standard output). The text \<^verbatim>\<open>@Locate()\<close> makes
  \<^verbatim>\<open>check_for_sub_components\<close> return its warning. When the file is given as a command
  line argument, the main loop drops the list \<^verbatim>\<open>convert_java\<close> returns: the run
  prints the progress line and no \<^verbatim>\<open>Page.java warnings:\<close> block.
\<close>

theorem direct_argument_warning_dropped:
  \<open>check_for_sub_components ''@Locate()'' = Some sub_component_warning
   \<and> main [''Page.java''] \<lparr>tree = Dir [(''Page.java'', File ''@Locate()'')], stdout = []\<rparr>
       = Some (Inr \<lparr>tree = Dir [(''Page.java'', File ''@Locate()'')],
                     stdout = [''Converted Page.java'']\<rparr>)\<close>
  by code_simp

text \<open>Found by a directory walk, the same file is reported; but the dictionary is keyed
  by the bare file name, so a second \<^verbatim>\<open>Page.java\<close> in another subdirectory replaces
  the entry of the first, and its warning is lost.\<close>

lemma walked_file_warning_reported:
  \<open>main [''src'']
     \<lparr>tree = Dir [(''src'', Dir [(''Page.java'', File ''@Locate()'')])], stdout = []\<rparr>
   = Some (Inr
     \<lparr>tree = Dir [(''src'', Dir [(''Page.java'', File ''@Locate()'')])],
      stdout = [''Converted src/Page.java'', ''Page.java warnings:'',
                ''  - '' @ sub_component_warning]\<rparr>)\<close>
  by code_simp

lemma same_basename_warning_overwritten:
  \<open>main [''src'']
     \<lparr>tree = Dir [(''src'', Dir [(''a'', Dir [(''Page.java'', File ''@Locate()'')]),
                                 (''b'', Dir [(''Page.java'', File ''class Page {}'')])])],
      stdout = []\<rparr>
   = Some (Inr
     \<lparr>tree = Dir [(''src'', Dir [(''a'', Dir [(''Page.java'', File ''@Locate()'')]),
                                 (''b'', Dir [(''Page.java'', File ''class Page {}'')])])],
      stdout = [''Converted src/a/Page.java'', ''Converted src/b/Page.java'']\<rparr>)\<close>
  by code_simp

text \<open>
  \<^bold>\<open>C3\<close> (singleton accessor). In the two patterns \<^verbatim>\<open>.\<close> is any character and
  \<^verbatim>\<open>()\<close> an empty group, so a match ends before the parentheses of the call, which
  stay behind the replacement: \<^verbatim>\<open>...Manager.get()\<close> becomes
  \<^verbatim>\<open>...Manager.INSTANCE.get()()\<close>, not \<^verbatim>\<open>...Manager.INSTANCE.get()\<close>.
\<close>

theorem singleton_accessor_doubles_parentheses:
  \<open>check_for_config_usage (check_for_applause_config_usage
      ''a = ApplauseEnvironmentConfigurationManager.get(); b = EnvironmentConfigurationManager.get();'')
   = ''a = ApplauseEnvironmentConfigurationManager.INSTANCE.get()(); b = EnvironmentConfigurationManager.INSTANCE.get()();''\<close>
  by code_simp

text \<open>
  \<^bold>\<open>C4\<close> (idempotence). The file has the same import twice, once followed by a
  blank. \<^verbatim>\<open>replace_imports\<close> keeps both lines (they differ), and
  \<^verbatim>\<open>add_import_if_not_present\<close>, run for the \<^verbatim>\<open>SdkHelper.create\<close> call, strips the
  blank and so writes the import twice. Run again on that output, \<^verbatim>\<open>replace_imports\<close>
  drops the second copy: the second run changes the file.
\<close>

theorem java_passes_not_idempotent:
  \<open>java_passes ''import a.B;\<newline>import a.B; \<newline>x = SdkHelper.create(A.class);''
     = Some (Inr (''import a.B;\<newline>import com.applause.auto.pageobjectmodel.builder.PageObjectBuilder;\<newline>import a.B;\<newline>x = PageObjectBuilder.withContext(SdkHelper.getDriverContext()).forBaseComponent(A.class).initialize();'', [None]))
   \<and> java_passes ''import a.B;\<newline>import com.applause.auto.pageobjectmodel.builder.PageObjectBuilder;\<newline>import a.B;\<newline>x = PageObjectBuilder.withContext(SdkHelper.getDriverContext()).forBaseComponent(A.class).initialize();''
     = Some (Inr (''import a.B;\<newline>import com.applause.auto.pageobjectmodel.builder.PageObjectBuilder;\<newline>x = PageObjectBuilder.withContext(SdkHelper.getDriverContext()).forBaseComponent(A.class).initialize();'', [None]))\<close>
  by code_simp

text \<open>
  \<^bold>\<open>C5\<close> (import deduplication). For the same file, the lines of the output of all
  the passes: the first and the third are both \<^verbatim>\<open>import a.B;\<close>.
\<close>

theorem java_passes_duplicate_import:
  \<open>map_option (map_sum id (\<lambda>(contents, warnings). split [nl] contents))
     (java_passes ''import a.B;\<newline>import a.B; \<newline>x = SdkHelper.create(A.class);'')
   = Some (Inr [''import a.B;'',
                ''import com.applause.auto.pageobjectmodel.builder.PageObjectBuilder;'',
                ''import a.B;'',
                ''x = PageObjectBuilder.withContext(SdkHelper.getDriverContext()).forBaseComponent(A.class).initialize();''])\<close>
  by code_simp

section \<open>Termination of the factory-call rewrite\<close>

text \<open>
  Every iteration of the loop of \<^verbatim>\<open>remove_sdk_helper_create\<close> replaces a match, which
  holds the letters \<^verbatim>\<open>create(\<close>, by a text that does not, and the class name it
  copies has no \<^verbatim>\<open>(\<close>; the import pass that follows only strips line ends, drops
  lines and adds one line without these letters. So the number of places where
  \<^verbatim>\<open>create(\<close> occurs goes down with every iteration.
\<close>

lemma count_sub_append_ge: "count_sub w xs + count_sub w ys \<le> count_sub w (xs @ ys)"
proof (induction xs)
  case Nil
  then show ?case by simp
next
  case (Cons x xs)
  have "prefix w (x # xs) \<Longrightarrow> prefix w (x # xs @ ys)"
    using prefix_prefix [of w "x # xs" ys] by simp
  with Cons show ?case by auto
qed

lemma prefix_across:
  assumes "prefix w (xs @ ys)" and "ys \<noteq> []" and "hd ys \<notin> set w"
  shows "prefix w xs"
proof -
  from assms(1) consider "prefix w xs" | us where "w = xs @ us" "prefix us ys"
    by (auto simp: prefix_append)
  then show ?thesis
  proof cases
    case 1
    then show ?thesis .
  next
    case 2
    show ?thesis
    proof (cases us)
      case Nil
      with 2 show ?thesis by simp
    next
      case (Cons u us')
      with 2 assms(2) have "hd ys = u"
        by (cases ys) auto
      with 2 Cons assms(3) show ?thesis by simp
    qed
  qed
qed

lemma count_sub_append_sep:
  assumes "ys \<noteq> []" and "hd ys \<notin> set w"
  shows "count_sub w (xs @ ys) = count_sub w xs + count_sub w ys"
proof (induction xs)
  case Nil
  then show ?case by simp
next
  case (Cons x xs)
  have "prefix w (x # xs @ ys) = prefix w (x # xs)"
    using prefix_across [of w "x # xs" ys] assms prefix_prefix [of w "x # xs" ys] by auto
  with Cons show ?case by simp
qed

lemma count_sub_absent:
  assumes "c \<in> set w" and "c \<notin> set xs"
  shows "count_sub w xs = 0"
  using assms(2)
proof (induction xs)
  case Nil
  then show ?case by simp
next
  case (Cons x xs)
  have "\<not> prefix w (x # xs)"
  proof
    assume "prefix w (x # xs)"
    then have "set w \<subseteq> set (x # xs)"
      by (rule set_mono_prefix)
    with assms(1) Cons.prems show False by auto
  qed
  with Cons show ?case by simp
qed

lemma count_sub_join_lines:
  assumes "nl \<notin> set w" and "w \<noteq> []"
  shows "count_sub w (join [nl] ls) = sum_list (map (count_sub w) ls)"
proof (induction "[nl]" ls rule: join.induct)
  case 1
  then show ?case by simp
next
  case (2 p)
  then show ?case by simp
next
  case (3 p q ps)
  have "count_sub w (p @ nl # join [nl] (q # ps))
      = count_sub w p + count_sub w (nl # join [nl] (q # ps))"
    using assms by (intro count_sub_append_sep) simp_all
  moreover have "\<not> prefix w (nl # join [nl] (q # ps))"
    using assms by (cases w) auto
  ultimately show ?case
    using 3 by simp
qed

lemma rstrip_prefix: "prefix (rstrip line) line"
proof -
  have "rev (dropWhile is_space (rev line)) @ rev (takeWhile is_space (rev line)) = line"
    by (metis rev_append rev_rev_ident takeWhile_dropWhile_id)
  then show ?thesis
    unfolding rstrip_def prefix_def by metis
qed

lemma count_sub_prefix_le: "prefix xs ys \<Longrightarrow> count_sub w xs \<le> count_sub w ys"
  using count_sub_append_ge [of w xs] by (auto simp: prefix_def intro: add_leD1)

lemma count_sub_rstrip: "count_sub w (rstrip line) \<le> count_sub w line"
  by (rule count_sub_prefix_le) (rule rstrip_prefix)

lemma scan_lines_count:
  assumes "scan_lines stmt i lines seen li found kept = (li', found', kept')"
  shows "sum_list (map (count_sub w) kept')
      \<le> sum_list (map (count_sub w) kept) + sum_list (map (count_sub w) lines)"
  using assms
proof (induction lines arbitrary: i seen li found kept)
  case Nil
  then show ?case by simp
next
  case (Cons line lines)
  show ?case
  proof (cases "line \<in> seen")
    case True
    with Cons.prems have "scan_lines stmt (Suc i) lines seen li found kept = (li', found', kept')"
      by simp
    from Cons.IH [OF this] show ?thesis by simp
  next
    case False
    then obtain seen1 li1 found1
      where "scan_lines stmt (Suc i) lines seen1 li1 found1 (kept @ [rstrip line])
          = (li', found', kept')"
      using Cons.prems by (simp split: if_splits)
    from Cons.IH [OF this] count_sub_rstrip [of w line] show ?thesis by simp
  qed
qed

lemma sum_list_insert:
  fixes f :: "'a \<Rightarrow> nat"
  shows "sum_list (map f (list_insert i x xs)) = f x + sum_list (map f xs)"
proof -
  have "sum_list (map f (take i xs)) + sum_list (map f (drop i xs)) = sum_list (map f xs)"
    by (metis append_take_drop_id map_append sum_list_append)
  then show ?thesis
    by (simp add: list_insert_def)
qed

lemma add_import_count:
  assumes "nl \<notin> set w" and "w \<noteq> []" and "count_sub w stmt = 0"
  shows "count_sub w (add_import_if_not_present stmt contents) \<le> count_sub w contents"
proof -
  obtain li found kept
    where scan: "scan_lines stmt 0 (split [nl] contents) {} 1 False [] = (li, found, kept)"
    by (cases "scan_lines stmt 0 (split [nl] contents) {} 1 False []") auto
  have "sum_list (map (count_sub w) kept) \<le> sum_list (map (count_sub w) (split [nl] contents))"
    using scan_lines_count [OF scan, of w] by simp
  also have "\<dots> = count_sub w (join [nl] (split [nl] contents))"
    using assms by (simp add: count_sub_join_lines)
  also have "\<dots> = count_sub w contents"
    by (simp add: join_split)
  finally have "sum_list (map (count_sub w) kept) \<le> count_sub w contents" .
  then show ?thesis
    using assms scan
    by (simp add: add_import_if_not_present_def count_sub_join_lines sum_list_insert)
qed

lemma rmatch_le: "rmatch r s = Some n \<Longrightarrow> n \<le> length s"
  by (induction r s arbitrary: n rule: rmatch.induct)
     (fastforce split: if_splits option.splits)+

lemma rmatch_lits:
  "rmatch (lits l @ r) s
     = (if prefix l s then map_option (\<lambda>n. length l + n) (rmatch r (drop (length l) s)) else None)"
proof (induction l arbitrary: s)
  case Nil
  then show ?case by (cases "rmatch r s") simp_all
next
  case (Cons a l)
  then show ?case
    by (cases s) (auto simp: option.map_comp comp_def)
qed

lemma search_from_Some:
  "search_from r k s = Some (i, j)
     \<Longrightarrow> \<exists>n. k \<le> i \<and> i - k \<le> length s \<and> rmatch r (drop (i - k) s) = Some n \<and> j = i + n"
proof (induction s arbitrary: k)
  case Nil
  then show ?case by (auto split: option.splits)
next
  case (Cons c cs)
  show ?case
  proof (cases "rmatch r (c # cs)")
    case (Some n)
    with Cons.prems show ?thesis by auto
  next
    case None
    with Cons.prems have "search_from r (Suc k) cs = Some (i, j)"
      by simp
    from Cons.IH [OF this] obtain n
      where n: "Suc k \<le> i" "i - Suc k \<le> length cs" "rmatch r (drop (i - Suc k) cs) = Some n"
        "j = i + n"
      by blast
    from n(1) have "i - k = Suc (i - Suc k)"
      by simp
    with n show ?thesis by auto
  qed
qed

lemma create_call_again_compiled:
  "re_compile False create_call_again
     = create_head @ Plus Dot # One Dot # lits ''class)''"
  by (simp add: create_call_again_def create_head_def re_compile_def plain_token_def
        escaped_token_def)

lemma create_call_first_compiled:
  "re_compile False create_call_first
     = create_head @ Plus Dot # One Dot # lits ''class);''"
  by (simp add: create_call_first_def create_head_def re_compile_def plain_token_def
        escaped_token_def)

lemma create_head_match:
  assumes "rmatch (create_head @ r) s = Some n"
  shows "\<exists>x u. take n s = ''SdkHelper'' @ x # ''create('' @ u"
proof -
  from assms have p1: "prefix ''SdkHelper'' s"
    unfolding create_head_def using rmatch_lits [of "''SdkHelper''" _ s]
    by (auto split: if_splits)
  then obtain s1 where s1: "s = ''SdkHelper'' @ s1"
    by (auto simp: prefix_def)
  from assms s1 obtain n1 where
    n1: "rmatch (One Dot # lits ''create('' @ r) s1 = Some n1" "n = 9 + n1"
    unfolding create_head_def using rmatch_lits [of "''SdkHelper''" _ s]
    by (auto split: if_splits)
  from n1(1) obtain x s2 n2 where
    s2: "s1 = x # s2" "rmatch (lits ''create('' @ r) s2 = Some n2" "n1 = Suc n2"
    by (cases s1) (auto split: if_splits)
  from s2(2) have p2: "prefix ''create('' s2"
    using rmatch_lits [of "''create(''" r s2] by (auto split: if_splits)
  then obtain s3 where s3: "s2 = ''create('' @ s3"
    by (auto simp: prefix_def)
  from s2(2) s3 obtain n3 where n3: "n2 = 7 + n3"
    using rmatch_lits [of "''create(''" r s2] by (auto split: if_splits)
  define head where "head = ''SdkHelper'' @ x # ''create(''"
  have "length head = 17"
    by (simp add: head_def)
  moreover have "s = head @ s3"
    using s1 s2 s3 by (simp add: head_def)
  moreover have "n = 17 + n3"
    using n1 s2 n3 by simp
  ultimately have "take n s = head @ take n3 s3"
    by simp
  then show ?thesis
    unfolding head_def by auto
qed

lemma count_builder_close: "count_sub ''create('' (builder_close @ s) = count_sub ''create('' s"
  by (simp add: builder_close_def)

lemma count_builder_open: "count_sub ''create('' (builder_open @ s) = count_sub ''create('' s"
  by (simp add: builder_open_def)

lemma splice_builder_result:
  assumes "group contents result = ''SdkHelper'' @ x # ''create('' @ u"
  shows "\<exists>className. CHR ''('' \<notin> set className
      \<and> splice_builder contents result
          = Inr (take (fst result) contents @ builder_open @ className @ builder_close
                 @ drop (snd result) contents)"
proof -
  have "CHR ''('' \<in> set (group contents result)"
    using assms by simp
  then obtain a piece r where pieces: "split ''('' (group contents result) = a # piece # r"
    using split_char_two by blast
  then have "CHR ''('' \<notin> set piece"
    using split_char_pieces [of piece "CHR ''(''" "group contents result"] by simp
  moreover have "set (hd (split ''.class'' piece)) \<subseteq> set piece"
    using hd_split_prefix [of "''.class''" piece] by (rule set_mono_prefix)
  ultimately have no_paren: "CHR ''('' \<notin> set (hd (split ''.class'' piece))"
    by auto
  have "splice_builder contents result
      = Inr (take (fst result) contents @ builder_open @ hd (split ''.class'' piece)
             @ builder_close @ drop (snd result) contents)"
    unfolding splice_builder_def pieces builder_open_def builder_close_def
    by (simp add: Let_def)
  with no_paren show ?thesis
    by blast
qed

lemma count_spliced:
  assumes "CHR ''('' \<notin> set className"
  shows "count_sub ''create('' (before @ builder_open @ className @ builder_close @ rest)
      = count_sub ''create('' before + count_sub ''create('' rest"
proof -
  have "builder_open @ className @ builder_close @ rest \<noteq> []"
    and "hd (builder_open @ className @ builder_close @ rest) \<notin> set ''create(''"
    by (simp_all add: builder_open_def)
  then have "count_sub ''create('' (before @ builder_open @ className @ builder_close @ rest)
      = count_sub ''create('' before
        + count_sub ''create('' (builder_open @ className @ builder_close @ rest)"
    by (rule count_sub_append_sep)
  moreover have "builder_close @ rest \<noteq> []"
    and "hd (builder_close @ rest) \<notin> set ''create(''"
    by (simp_all add: builder_close_def)
  then have "count_sub ''create('' (className @ builder_close @ rest)
      = count_sub ''create('' className + count_sub ''create('' (builder_close @ rest)"
    by (rule count_sub_append_sep)
  moreover have "count_sub ''create('' className = 0"
    using _ assms by (rule count_sub_absent) simp
  ultimately show ?thesis
    by (simp add: count_builder_open count_builder_close)
qed

lemma group_parts:
  assumes "fst m \<le> snd m"
  shows "take (fst m) contents @ group contents m @ drop (snd m) contents = contents"
proof -
  have "drop (snd m) contents = drop (snd m - fst m) (drop (fst m) contents)"
    using assms by simp
  then have "group contents m @ drop (snd m) contents
      = take (snd m - fst m) (drop (fst m) contents)
        @ drop (snd m - fst m) (drop (fst m) contents)"
    by (simp only: group_def)
  also have "\<dots> = drop (fst m) contents"
    by (rule append_take_drop_id)
  finally show ?thesis by simp
qed

lemma count_matched:
  assumes "fst m \<le> snd m"
    and "group contents m = ''SdkHelper'' @ x # ''create('' @ u"
  shows "count_sub ''create('' (take (fst m) contents) + count_sub ''create('' (drop (snd m) contents)
      < count_sub ''create('' contents"
proof -
  let ?n = "count_sub ''create(''"
  have "?n (''SdkHelper'' @ [x]) + ?n (''create('' @ u) \<le> ?n ((''SdkHelper'' @ [x]) @ ''create('' @ u)"
    by (rule count_sub_append_ge)
  moreover have "1 \<le> ?n (''create('' @ u)"
    by simp
  ultimately have one: "1 \<le> ?n (group contents m)"
    using assms(2) by simp
  have "?n (group contents m) + ?n (drop (snd m) contents)
      \<le> ?n (group contents m @ drop (snd m) contents)"
    by (rule count_sub_append_ge)
  moreover have "?n (take (fst m) contents) + ?n (group contents m @ drop (snd m) contents)
      \<le> ?n (take (fst m) contents @ group contents m @ drop (snd m) contents)"
    by (rule count_sub_append_ge)
  ultimately have "?n (take (fst m) contents) + ?n (group contents m) + ?n (drop (snd m) contents)
      \<le> ?n contents"
    using group_parts [OF assms(1), of contents] by simp
  with one show ?thesis by simp
qed

lemma search_group:
  assumes "re_search pattern contents = Some m"
    and "re_compile False pattern = create_head @ r"
  shows "fst m \<le> snd m \<and> (\<exists>x u. group contents m = ''SdkHelper'' @ x # ''create('' @ u)"
proof -
  obtain i j where m: "m = (i, j)"
    by (cases m)
  with assms have "search_from (create_head @ r) 0 contents = Some (i, j)"
    by (simp add: re_search_def)
  then obtain n where n: "rmatch (create_head @ r) (drop i contents) = Some n" "j = i + n"
    using search_from_Some [of "create_head @ r" 0 contents i j] by auto
  from create_head_match [OF n(1)] n(2) m show ?thesis
    by (simp add: group_def)
qed

lemma count_builder_import: "count_sub ''create('' builder_import = 0"
  by (simp add: builder_import_def)

lemma step_decreases:
  assumes "re_search pattern contents = Some m"
    and "re_compile False pattern = create_head @ r"
  shows "\<exists>spliced. splice_builder contents m = Inr spliced
      \<and> count_sub ''create('' (add_import_if_not_present builder_import spliced)
          < count_sub ''create('' contents"
proof -
  from search_group [OF assms] obtain x u
    where le: "fst m \<le> snd m"
      and g: "group contents m = ''SdkHelper'' @ x # ''create('' @ u"
    by blast
  from splice_builder_result [OF g] obtain className
    where cn: "CHR ''('' \<notin> set className"
      and sp: "splice_builder contents m
          = Inr (take (fst m) contents @ builder_open @ className @ builder_close
                 @ drop (snd m) contents)"
    by blast
  let ?spliced = "take (fst m) contents @ builder_open @ className @ builder_close
      @ drop (snd m) contents"
  have "count_sub ''create('' (add_import_if_not_present builder_import ?spliced)
      \<le> count_sub ''create('' ?spliced"
    by (rule add_import_count) (simp_all add: count_builder_import)
  also have "\<dots> = count_sub ''create('' (take (fst m) contents)
      + count_sub ''create('' (drop (snd m) contents)"
    using cn by (rule count_spliced)
  also have "\<dots> < count_sub ''create('' contents"
    using le g by (rule count_matched)
  finally show ?thesis
    using sp by blast
qed

lemma sdk_helper_loop_terminates:
  "\<exists>r. sdk_helper_loop (contents, re_search create_call_again contents) = Some (Inr r)
      \<and> re_search create_call_again r = None"
proof (induction contents rule: measure_induct_rule [of "count_sub ''create(''"])
  case (less contents)
  show ?case
  proof (cases "re_search create_call_again contents")
    case None
    then show ?thesis
      by (subst sdk_helper_loop.simps) simp
  next
    case (Some m)
    from step_decreases [OF Some create_call_again_compiled] obtain spliced
      where sp: "splice_builder contents m = Inr spliced"
        and lt: "count_sub ''create('' (add_import_if_not_present builder_import spliced)
            < count_sub ''create('' contents"
      by blast
    from less [OF lt] obtain r
      where "sdk_helper_loop (add_import_if_not_present builder_import spliced,
          re_search create_call_again (add_import_if_not_present builder_import spliced))
          = Some (Inr r)"
        and "re_search create_call_again r = None"
      by blast
    with Some sp show ?thesis
      by (subst sdk_helper_loop.simps) (simp add: Let_def)
  qed
qed

lemma rmatch_extend_None: "rmatch r s = None \<Longrightarrow> rmatch (r @ q) s = None"
  by (induction r s rule: rmatch.induct) (auto split: if_splits option.splits)

lemma search_from_extend_None:
  "search_from r k s = None \<Longrightarrow> search_from (r @ q) k s = None"
  by (induction s arbitrary: k) (auto split: option.splits simp: rmatch_extend_None)

lemma create_call_first_extends:
  "re_compile False create_call_first = re_compile False create_call_again @ [One (Lit CHR '';'')]"
  by (simp add: create_call_first_compiled create_call_again_compiled)

lemma no_match_again_first:
  "re_search create_call_again s = None \<Longrightarrow> re_search create_call_first s = None"
  by (simp add: re_search_def create_call_first_extends search_from_extend_None)

text \<open>
  \<^bold>\<open>C10\<close> (termination of the factory-call rewrite). For every text,
  \<^verbatim>\<open>remove_sdk_helper_create\<close> returns (the result is \<open>Some\<close>: the loop ends after
  finitely many iterations) without an exception (the result is \<open>Inr\<close>), and the
  text it returns has no match of the pattern searched before the loop; when the loop
  body ran at all, it has no match of the pattern searched in the loop either.
\<close>

theorem remove_sdk_helper_create_terminates:
  "\<exists>r. remove_sdk_helper_create contents = Some (Inr r)
      \<and> re_search create_call_first r = None
      \<and> (r = contents \<or> re_search create_call_again r = None)"
proof (cases "re_search create_call_first contents")
  case None
  then have "remove_sdk_helper_create contents = Some (Inr contents)"
    unfolding remove_sdk_helper_create_def by (subst sdk_helper_loop.simps) simp
  with None show ?thesis by simp
next
  case (Some m)
  from step_decreases [OF Some create_call_first_compiled] obtain spliced
    where sp: "splice_builder contents m = Inr spliced"
    by blast
  let ?next = "add_import_if_not_present builder_import spliced"
  from sdk_helper_loop_terminates [of ?next] obtain r
    where r: "sdk_helper_loop (?next, re_search create_call_again ?next) = Some (Inr r)"
      "re_search create_call_again r = None"
    by blast
  have "remove_sdk_helper_create contents = Some (Inr r)"
    unfolding remove_sdk_helper_create_def
    using Some sp r(1) by (subst sdk_helper_loop.simps) (simp add: Let_def)
  with r(2) no_match_again_first [OF r(2)] show ?thesis by simp
qed

text \<open>An argument that itself looks like the call: the first match spans the whole
  line, the class name is the piece up to the second parenthesis, and one iteration is
  enough.\<close>

lemma remove_sdk_helper_create_nested:
  \<open>remove_sdk_helper_create ''SdkHelper.create(SdkHelper.create(A.class).class);''
   = Some (Inr (''PageObjectBuilder.withContext(SdkHelper.getDriverContext()).forBaseComponent(SdkHelper.create.class).initialize();\<newline>import com.applause.auto.pageobjectmodel.builder.PageObjectBuilder;''))\<close>
  by code_simp

section \<open>Quoted keys in a text\<close>





lemma inner_Cons: "inner (p # r) = butlast r"
  by (simp add: inner_def)

lemma butlast_Cons_Cons: "butlast (a # b # r) = a # butlast (b # r)"
  by simp



































section \<open>The loop over the capability table\<close>






















section \<open>Reading a file after it was written\<close>







section \<open>The capability rewrite\<close>




text \<open>
  \<^bold>\<open>C7\<close> (obsolete options). The file has the pair \<^verbatim>\<open>isStrict\<close>/\<^verbatim>\<open>true\<close> in both
  spellings. The removal is an \<^verbatim>\<open>if\<close>/\<^verbatim>\<open>elif\<close>: once the spelling
  \<^verbatim>\<open>"isStrict": "true",\<close> is found and removed, the spelling
  \<^verbatim>\<open>"isStrict" : "true",\<close> is not looked for, and it is still in the text after the
  removal phase.
\<close>

theorem spaced_option_left_behind:
  \<open>fst (remove_unused_options ''caps.json''
      (''[{"isStrict": "true", "app": "a.apk"}, {"isStrict" : "true", "app": "b.apk"}]'', []))
   = ''[{ "app": "a.apk"}, {"isStrict" : "true", "app": "b.apk"}]''
   \<and> is_sub (option_text_spaced ''isStrict'' ''true'')
       ''[{ "app": "a.apk"}, {"isStrict" : "true", "app": "b.apk"}]''\<close>
  by code_simp

section \<open>The command line of \<^verbatim>\<open>convert.py\<close>\<close>

text \<open>
  \<^bold>\<open>C8\<close> (directory walk). The walk finds \<^verbatim>\<open>project/module/pom.xml\<close> and calls
  \<^verbatim>\<open>convert_pom\<close> with the bare name \<^verbatim>\<open>pom.xml\<close> (for a Java file it joins the
  directory and the name). The working directory has no \<^verbatim>\<open>pom.xml\<close>, so opening it
  raises \<^verbatim>\<open>FileNotFoundError\<close>, which nothing catches: the run ends there.
\<close>

theorem nested_pom_aborts_walk:
  \<open>main [''project'']
     \<lparr>tree = Dir [(''project'', Dir [(''module'', Dir [(''pom.xml'', File ''<source>17</source>'')])])],
      stdout = []\<rparr>
   = Some (Inl (FileNotFoundError ''pom.xml''))\<close>
  by code_simp

text \<open>When the working directory has a \<^verbatim>\<open>pom.xml\<close> of its own, that file is rewritten
  in place of the one the walk found.\<close>

lemma nested_pom_rewrites_other_file:
  \<open>main [''project'']
     \<lparr>tree = Dir [(''pom.xml'', File ''<source>17</source>''),
                  (''project'', Dir [(''pom.xml'', File ''<target>17</target>'')])],
      stdout = []\<rparr>
   = Some (Inr
     \<lparr>tree = Dir [(''pom.xml'', File ''<source>21</source>''),
                  (''project'', Dir [(''pom.xml'', File ''<target>17</target>'')])],
      stdout = [''Converted pom.xml'']\<rparr>)\<close>
  by code_simp

text \<open>
  \<^bold>\<open>C9\<close> (a path to a POM as argument). \<^verbatim>\<open>module/pom.xml\<close> is an existing file
  whose base name is \<^verbatim>\<open>pom.xml\<close>. The main loop compares the whole argument with
  \<^verbatim>\<open>pom.xml\<close>, so the file is not converted: the run prints the diagnostic for an
  invalid input and leaves the file as it was.
\<close>

theorem pom_path_argument_rejected:
  \<open>isfile (Dir [(''module'', Dir [(''pom.xml'', File ''<source>17</source>'')])]) ''module/pom.xml''
   \<and> main [''module/pom.xml'']
       \<lparr>tree = Dir [(''module'', Dir [(''pom.xml'', File ''<source>17</source>'')])], stdout = []\<rparr>
     = Some (Inr
       \<lparr>tree = Dir [(''module'', Dir [(''pom.xml'', File ''<source>17</source>'')])],
        stdout = [''module/pom.xml is not a valid Java file, pom.xml, or directory.'']\<rparr>)\<close>
  by code_simp

end
